theory Spec2Isabelle
  imports Complex_Main "HOL-Library.Sublist" "HOL-Library.AList" "HOL-Library.Multiset"
begin

section \<open>Python values and strings\<close>

text \<open>
  Strings are \<^typ>\<open>string\<close>. \<open>str.lower\<close> is modelled on the ASCII letters
  \<open>A\<close>..\<open>Z\<close>; every other character is left as it is. All the vocabulary the scanner
  looks for is ASCII.
\<close>

definition lower_char :: "char \<Rightarrow> char" where
  "lower_char c =
     (let n = (of_char c :: nat) in if 65 \<le> n \<and> n \<le> 90 then char_of (n + 32) else c)"

definition lower :: "string \<Rightarrow> string" where
  "lower s = map lower_char s"

text \<open>Python's \<open>needle in haystack\<close> on strings: \<open>needle\<close> occurs as a contiguous run.\<close>

fun contains :: "string \<Rightarrow> string \<Rightarrow> bool" where
  "contains needle [] = (needle = [])"
| "contains needle (c # cs) = (prefix needle (c # cs) \<or> contains needle cs)"

text \<open>Header mappings are used through \<open>.get(key, default)\<close> and \<open>key in headers\<close> only.\<close>

type_synonym headers = "string \<rightharpoonup> string"

definition headers_get :: "headers \<Rightarrow> string \<Rightarrow> string \<Rightarrow> string" where
  "headers_get h k d = (case h k of None \<Rightarrow> d | Some v \<Rightarrow> v)"

section \<open>The classifier: \<open>detect_api\<close>\<close>

definition cloudflare_block :: "string \<Rightarrow> bool" where
  \<open>cloudflare_block response_lower =
     (contains ''cloudflare'' response_lower \<and>
      (contains ''challenge'' response_lower \<or> contains ''attention required'' response_lower))\<close>

definition json_indicators :: "string list" where
  \<open>json_indicators = [''{"'', ''"data":'', ''"api":'', ''"response":'', ''"result":'']\<close>

definition doc_indicators :: "string list" where
  "doc_indicators = [''swagger'', ''openapi'', ''api documentation'', ''api docs'', ''redoc'']"

definition framework_indicators :: "string list" where
  "framework_indicators = [''fastapi'', ''django rest'', ''express'', ''flask-restful'']"

definition server_indicators :: "string list" where
  "server_indicators = [''fastapi'', ''werkzeug'', ''gunicorn'']"

definition mentions_any :: "string list \<Rightarrow> string \<Rightarrow> bool" where
  "mentions_any indicators s = list_ex (\<lambda>indicator. contains indicator s) indicators"

definition detect_api :: "string \<Rightarrow> headers \<Rightarrow> string \<Rightarrow> bool \<times> string option" where
  \<open>detect_api response_text headers url =
     (let response_lower = lower response_text;
          content_type = lower (headers_get headers ''content-type'' '''')
      in if cloudflare_block response_lower then (False, Some ''Cloudflare Block'')
         else if contains ''application/json'' content_type then (True, Some ''REST/JSON'')
         else if mentions_any json_indicators response_lower then (True, Some ''REST/JSON'')
         else if contains ''graphql'' response_lower \<or> contains ''"query"'' response_lower
                 \<or> contains ''graphiql'' response_lower then (True, Some ''GraphQL'')
         else if contains ''xml'' content_type \<or> contains ''<?xml'' response_text
                 \<or> contains ''soap:envelope'' response_lower then (True, Some ''SOAP/XML'')
         else if mentions_any doc_indicators response_lower then (True, Some ''API Documentation'')
         else if mentions_any framework_indicators response_lower then (True, Some ''API Framework'')
         else let server = lower (headers_get headers ''server'' '''')
              in if mentions_any server_indicators server then (True, Some ''API Server'')
                 else (False, None))\<close>

definition api_labels :: "string list" where
  "api_labels = [''REST/JSON'', ''GraphQL'', ''SOAP/XML'', ''API Documentation'',
                 ''API Framework'', ''API Server'']"

section \<open>Outcome dictionaries\<close>

text \<open>
  A probe outcome is a Python \<open>dict\<close> with string keys whose values are strings, integers,
  booleans or \<open>None\<close>. Insertion order is kept, so it is an association list;
  \<open>d[k] = v\<close> is \<^const>\<open>AList.update\<close> (in place for an old key, at the end for a new one).
\<close>

datatype pyval = PNone | PBool bool | PInt int | PStr string

type_synonym dict = "(string \<times> pyval) list"

fun truthy :: "pyval \<Rightarrow> bool" where
  "truthy PNone = False"
| "truthy (PBool b) = b"
| "truthy (PInt i) = (i \<noteq> 0)"
| "truthy (PStr s) = (s \<noteq> [])"

definition dict_get :: "dict \<Rightarrow> string \<Rightarrow> pyval \<Rightarrow> pyval" where
  "dict_get d k dflt = (case map_of d k of None \<Rightarrow> dflt | Some v \<Rightarrow> v)"

definition opt_pyval :: "string option \<Rightarrow> pyval" where
  "opt_pyval l = (case l of None \<Rightarrow> PNone | Some s \<Rightarrow> PStr s)"

fun str_nat :: "nat \<Rightarrow> string" where
  "str_nat n = (if n < 10 then [char_of (48 + n)]
                else str_nat (n div 10) @ [char_of (48 + n mod 10)])"

declare str_nat.simps [simp del]

definition str_int :: "int \<Rightarrow> string" where
  "str_int i = (if i < 0 then CHR ''-'' # str_nat (nat (- i)) else str_nat (nat i))"

fun py_str :: "pyval \<Rightarrow> string" where
  "py_str PNone = ''None''"
| "py_str (PBool b) = (if b then ''True'' else ''False'')"
| "py_str (PInt i) = str_int i"
| "py_str (PStr s) = s"

section \<open>The probe: \<open>scan_domain_path\<close>\<close>

text \<open>
  What a probe observes of the outside world is given by an environment: the answer of
  \<open>requests.get\<close> to a URL (a response, or one of the exceptions the handlers name),
  the clock reading and the random draw at the \<open>k\<close>-th scheme attempt of the probe.
  What the probe does to the outside world is returned as its list of events, in order.
  Probes run in pool threads, where \<open>requests.get\<close> raises subclasses of \<open>Exception\<close> only.
\<close>

record response =
  resp_text :: string
  resp_headers :: headers
  resp_status_code :: int

datatype request_exception = SSLError | Timeout | ConnectionError | OtherException

datatype fetch = Raises request_exception | Returns response

record env =
  http_get :: "string \<Rightarrow> (string \<times> string) list \<Rightarrow> real \<Rightarrow> fetch"
  now_isoformat :: "nat \<Rightarrow> string"
  random_choice :: "nat \<Rightarrow> nat"

datatype event = Sleep real | Get string | Print string

definition USER_AGENTS :: "string list" where
  "USER_AGENTS =
    [''Mozilla/5.0 (Windows NT 10.0; Win64; x64) AppleWebKit/537.36 (KHTML, like Gecko) Chrome/120.0.0.0 Safari/537.36'',
     ''Mozilla/5.0 (Macintosh; Intel Mac OS X 10_15_7) AppleWebKit/537.36 (KHTML, like Gecko) Chrome/120.0.0.0 Safari/537.36'',
     ''Mozilla/5.0 (X11; Linux x86_64) AppleWebKit/537.36 (KHTML, like Gecko) Chrome/120.0.0.0 Safari/537.36'',
     ''Mozilla/5.0 (Windows NT 10.0; Win64; x64; rv:121.0) Gecko/20100101 Firefox/121.0'',
     ''Mozilla/5.0 (Macintosh; Intel Mac OS X 10_15_7) AppleWebKit/605.1.15 (KHTML, like Gecko) Version/17.1 Safari/605.1.15'']"

definition get_random_headers :: "nat \<Rightarrow> (string \<times> string) list" where
  "get_random_headers draw =
    [(''User-Agent'', USER_AGENTS ! (draw mod length USER_AGENTS)),
     (''Accept'', ''text/html,application/xhtml+xml,application/xml;q=0.9,image/webp,*/*;q=0.8''),
     (''Accept-Language'', ''en-US,en;q=0.5''),
     (''Accept-Encoding'', ''gzip, deflate, br''),
     (''DNT'', ''1''),
     (''Connection'', ''keep-alive''),
     (''Upgrade-Insecure-Requests'', ''1''),
     (''Sec-Fetch-Dest'', ''document''),
     (''Sec-Fetch-Mode'', ''navigate''),
     (''Sec-Fetch-Site'', ''none''),
     (''Cache-Control'', ''max-age=0'')]"

definition GREEN :: string where
  "GREEN = CHR 0x1B # ''[92m''"

definition RESET :: string where
  "RESET = CHR 0x1B # ''[0m''"

definition build_url :: "string \<Rightarrow> string \<Rightarrow> string \<Rightarrow> string" where
  "build_url scheme domain path = scheme @ ''://'' @ domain @ path"

definition initial_result :: "string \<Rightarrow> string \<Rightarrow> string \<Rightarrow> string \<Rightarrow> string \<Rightarrow> dict" where
  "initial_result url domain path scheme stamp =
    [(''url'', PStr url), (''domain'', PStr domain), (''path'', PStr path),
     (''scheme'', PStr scheme), (''is_api'', PBool False), (''api_type'', PNone),
     (''timestamp'', PStr stamp)]"

definition positive_result :: "dict \<Rightarrow> string option \<Rightarrow> response \<Rightarrow> dict" where
  "positive_result result api_type resp =
    AList.update ''cloudflare'' (PBool (resp_headers resp ''cf-ray'' \<noteq> None))
      (AList.update ''server'' (PStr (headers_get (resp_headers resp) ''server'' ''Unknown''))
        (AList.update ''status_code'' (PInt (resp_status_code resp))
          (AList.update ''api_type'' (opt_pyval api_type)
            (AList.update ''is_api'' (PBool True) result))))"

definition found_message :: "string \<Rightarrow> string option \<Rightarrow> dict \<Rightarrow> string" where
  "found_message url api_type result =
    (let cloudflare_note =
           (if truthy (dict_get result ''cloudflare'' PNone) then '' [CF]'' else [])
     in GREEN @ ''[+] API Found: '' @ url @ '' - '' @ py_str (opt_pyval api_type)
        @ cloudflare_note @ RESET)"

text \<open>
  The loop \<open>for scheme in ['https', 'http']\<close>, with \<open>k\<close> the number of schemes already
  tried. Every handler of the \<open>try\<close> continues with the next scheme, and so does a
  response that is not classified as an API.
\<close>

fun scan_schemes ::
  "env \<Rightarrow> string \<Rightarrow> string \<Rightarrow> real \<Rightarrow> nat \<Rightarrow> string list \<Rightarrow> dict option \<times> event list" where
  "scan_schemes e domain path timeout k [] = (None, [])"
| "scan_schemes e domain path timeout k (scheme # rest) =
    (let url = build_url scheme domain path;
         result = initial_result url domain path scheme (now_isoformat e k);
         continue = (let (r, evs) = scan_schemes e domain path timeout (Suc k) rest
                     in (r, Get url # evs))
     in case http_get e url (get_random_headers (random_choice e k)) timeout of
          Raises SSLError \<Rightarrow> continue
        | Raises Timeout \<Rightarrow> continue
        | Raises ConnectionError \<Rightarrow> continue
        | Raises OtherException \<Rightarrow> continue
        | Returns resp \<Rightarrow>
            (let (is_api, api_type) = detect_api (resp_text resp) (resp_headers resp) url
             in if is_api
                then (let result' = positive_result result api_type resp
                      in (Some result', [Get url, Print (found_message url api_type result')]))
                else continue))"

declare scan_schemes.simps(2) [simp del]

definition scan_domain_path ::
  "env \<Rightarrow> string \<Rightarrow> string \<Rightarrow> real \<Rightarrow> real \<Rightarrow> dict option \<times> event list" where
  "scan_domain_path e domain path timeout delay =
    (let slept = (if delay > 0 then [Sleep delay] else []);
         (r, evs) = scan_schemes e domain path timeout 0 [''https'', ''http'']
     in (r, slept @ evs))"

text \<open>
  Observations on a probe, used to state its properties: whether the attempt at a URL
  answers with a response that the classifier accepts, whether it raises, and the
  requests and the sleeps among the events of a probe, in order.
\<close>

definition attempt_positive :: "env \<Rightarrow> string \<Rightarrow> nat \<Rightarrow> real \<Rightarrow> bool" where
  "attempt_positive e url k timeout =
     (case http_get e url (get_random_headers (random_choice e k)) timeout of
        Raises x \<Rightarrow> False
      | Returns resp \<Rightarrow> fst (detect_api (resp_text resp) (resp_headers resp) url))"

definition attempt_raises :: "env \<Rightarrow> string \<Rightarrow> nat \<Rightarrow> real \<Rightarrow> bool" where
  "attempt_raises e url k timeout =
     (case http_get e url (get_random_headers (random_choice e k)) timeout of
        Raises x \<Rightarrow> True
      | Returns resp \<Rightarrow> False)"

fun requested_urls :: "event list \<Rightarrow> string list" where
  "requested_urls [] = []"
| "requested_urls (Get url # evs) = url # requested_urls evs"
| "requested_urls (ev # evs) = requested_urls evs"

fun sleeps :: "event list \<Rightarrow> real list" where
  "sleeps [] = []"
| "sleeps (Sleep d # evs) = d # sleeps evs"
| "sleeps (ev # evs) = sleeps evs"

text \<open>The fields that a positive outcome takes from the response it was built from.\<close>

definition outcome_from :: "response \<Rightarrow> dict \<Rightarrow> bool" where
  "outcome_from resp r =
     (map_of r ''is_api'' = Some (PBool True)
      \<and> (\<exists>label \<in> set api_labels. map_of r ''api_type'' = Some (PStr label))
      \<and> map_of r ''status_code'' = Some (PInt (resp_status_code resp))
      \<and> map_of r ''server'' = Some (PStr (headers_get (resp_headers resp) ''server'' ''Unknown''))
      \<and> map_of r ''cloudflare'' = Some (PBool (resp_headers resp ''cf-ray'' \<noteq> None)))"

section \<open>The scheduler: the scan loop of \<open>main\<close>\<close>

text \<open>
  The part of \<open>main\<close> from the construction of \<open>targets\<close> to the end of the
  \<open>as_completed\<close> loop. The main thread submits one task per target and then consumes the
  futures one after the other, in the order in which they complete. That order is not
  determined by the program: it is given by \<open>pick\<close>, which names, at each step, which of the
  futures still pending completes next. Task number \<open>i\<close> sees the environment \<open>envs i\<close>.
\<close>

datatype error = ZeroDivisionError | ValueError | AttributeError | KeyError

definition make_targets :: "string list \<Rightarrow> string list \<Rightarrow> (string \<times> string) list" where
  "make_targets domains paths =
     concat (map (\<lambda>domain. map (\<lambda>path. (domain, path)) paths) domains)"

function as_completed :: "(nat \<Rightarrow> nat) \<Rightarrow> nat \<Rightarrow> 'a list \<Rightarrow> 'a list" where
  "as_completed pick n pending =
     (if pending = [] then []
      else let i = pick n mod length pending
           in pending ! i # as_completed pick (Suc n) (take i pending @ drop (Suc i) pending))"
  by pat_completeness auto
termination
proof (relation "measure (\<lambda>(pick, n, pending). length pending)", goal_cases)
  case 1
  show ?case by simp
next
  case (2 pick n pending i)
  have shorter: "j + (l - Suc j) < l" if "j < l" for j l :: nat
    using that by arith
  from 2(1) have "pick n mod length pending < length pending" by simp
  with 2 show ?case by (simp add: shorter)
qed

declare as_completed.simps [simp del]

record scan_state =
  results :: "dict list"
  completed :: nat
  completed_history :: "nat list"
  progress_lines :: "(nat \<times> nat) list"

definition initial_state :: scan_state where
  "initial_state =
     \<lparr>results = [], completed = 0, completed_history = [0], progress_lines = []\<rparr>"

text \<open>
  One round of the loop body: \<open>completed_history\<close> is a ghost field that records every value
  the counter \<open>completed\<close> has held, oldest first. A dictionary is true in Python when it
  has a key.
\<close>

definition consume :: "nat \<Rightarrow> dict option \<Rightarrow> scan_state \<Rightarrow> scan_state" where
  "consume n_targets result st =
     (let st1 = (case result of
                   None \<Rightarrow> st
                 | Some d \<Rightarrow> if d \<noteq> [] then st\<lparr>results := results st @ [d]\<rparr> else st);
          c = completed st1 + 1;
          st2 = st1\<lparr>completed := c, completed_history := completed_history st1 @ [c]\<rparr>
      in if c mod 10 = 0 then st2\<lparr>progress_lines := progress_lines st2 @ [(c, n_targets)]\<rparr>
         else st2)"

fun collect :: "nat \<Rightarrow> (dict option \<times> event list) list \<Rightarrow> scan_state \<Rightarrow> scan_state" where
  "collect n_targets [] st = st"
| "collect n_targets (future # futures) st =
     collect n_targets futures (consume n_targets (fst future) st)"

definition submit_all ::
  "(nat \<Rightarrow> env) \<Rightarrow> real \<Rightarrow> (string \<times> string) list \<Rightarrow> (dict option \<times> event list) list" where
  "submit_all envs delay targets =
     map (\<lambda>(i, (domain, path)). scan_domain_path (envs i) domain path 10 delay)
         (enumerate 0 targets)"

definition main_scan ::
  "(nat \<Rightarrow> env) \<Rightarrow> (nat \<Rightarrow> nat) \<Rightarrow> string list \<Rightarrow> string list \<Rightarrow> int \<Rightarrow> real
     \<Rightarrow> error + scan_state \<times> event list list" where
  "main_scan envs pick domains paths threads delay =
     (let targets = make_targets domains paths
      in if threads = 0 then Inl ZeroDivisionError
         else if threads < 0 then Inl ValueError
         else let finished = as_completed pick 0 (submit_all envs delay targets)
              in Inr (collect (length targets) finished initial_state, map snd finished))"

section \<open>The result store: \<open>save_results\<close>\<close>

text \<open>
  The file system is a map from paths to file contents. \<open>json.load\<close> and \<open>json.dump\<close>
  belong to Python's library: they are parameters, \<open>json_load\<close> returning \<open>None\<close> where
  the library raises. Directories and failures of \<open>open\<close> are not represented.
\<close>

datatype json = JAtom pyval | JArr "json list" | JObj "(string \<times> json) list"

record json_lib =
  json_load :: "string \<Rightarrow> json option"
  json_dump :: "json \<Rightarrow> string"

type_synonym filesystem = "string \<rightharpoonup> string"

definition dict_json :: "dict \<Rightarrow> json" where
  "dict_json d = JObj (map (\<lambda>(k, v). (k, JAtom v)) d)"

text \<open>
  \<open>str.replace(old, new)\<close>: every occurrence, left to right, without overlap.
\<close>

function replace :: "string \<Rightarrow> string \<Rightarrow> string \<Rightarrow> string" where
  "replace old new [] = (if old = [] then new else [])"
| "replace old new (c # cs) =
     (if old = [] then new @ c # replace old new cs
      else if prefix old (c # cs) then new @ replace old new (drop (length old - 1) cs)
      else c # replace old new cs)"
  by pat_completeness auto
termination
  by (relation "measure (\<lambda>(old, new, s). length s)") auto

text \<open>The condition \<open>result and result.get('is_api')\<close>.\<close>

definition is_positive :: "dict option \<Rightarrow> bool" where
  "is_positive result =
     (case result of None \<Rightarrow> False | Some d \<Rightarrow> d \<noteq> [] \<and> truthy (dict_get d ''is_api'' PNone))"

definition format_line :: "dict \<Rightarrow> error + string" where
  "format_line result =
     (let cf = (if truthy (dict_get result ''cloudflare'' PNone) then '' (Cloudflare)'' else [])
      in case map_of result ''url'' of
           None \<Rightarrow> Inl KeyError
         | Some url \<Rightarrow>
             (case map_of result ''api_type'' of
                None \<Rightarrow> Inl KeyError
              | Some api_type \<Rightarrow>
                  Inr (py_str url @ '' | '' @ py_str api_type @ '' | '' @ ''Status: ''
                       @ py_str (dict_get result ''status_code'' (PStr ''N/A'')) @ cf
                       @ [CHR 0x0A])))"

fun write_lines :: "dict option list \<Rightarrow> string \<Rightarrow> string \<times> error option" where
  "write_lines [] f = (f, None)"
| "write_lines (None # rs) f = write_lines rs f"
| "write_lines (Some d # rs) f =
     (if is_positive (Some d)
      then (case format_line d of
              Inl err \<Rightarrow> (f, Some err)
            | Inr line \<Rightarrow> write_lines rs (f @ line))
      else write_lines rs f)"

definition positives :: "dict option list \<Rightarrow> dict list" where
  "positives rs = List.map_filter (\<lambda>r. if is_positive r then r else None) rs"

definition save_results ::
  "json_lib \<Rightarrow> filesystem \<Rightarrow> dict option list \<Rightarrow> string \<Rightarrow> filesystem \<times> error option" where
  "save_results lib fs rs output_file =
     (let (txt, err) = write_lines rs (case fs output_file of None \<Rightarrow> [] | Some s \<Rightarrow> s);
          fs1 = fs(output_file \<mapsto> txt)
      in case err of
           Some e \<Rightarrow> (fs1, Some e)
         | None \<Rightarrow>
             (let json_file = replace ''.txt'' ''.json'' output_file;
                  loaded = (case fs1 json_file of
                              None \<Rightarrow> JArr []
                            | Some s \<Rightarrow> (case json_load lib s of None \<Rightarrow> JArr [] | Some v \<Rightarrow> v))
              in case loaded of
                   JArr existing \<Rightarrow>
                     (fs1(json_file \<mapsto> json_dump lib (JArr (existing @ map dict_json (positives rs)))),
                      None)
                 | JAtom a \<Rightarrow> (fs1, Some AttributeError)
                 | JObj kvs \<Rightarrow> (fs1, Some AttributeError)))"

section \<open>Concrete inputs\<close>

text \<open>
  Responses and environments at which the theorems below are exercised: a JSON answer,
  a plain page, a Cloudflare challenge page, and hosts that answer differently over
  HTTPS and HTTP.
\<close>

definition json_response :: response where
  \<open>json_response =
     \<lparr>resp_text = ''{"status":"up"}'',
      resp_headers = [''content-type'' \<mapsto> ''application/json'', ''server'' \<mapsto> ''gunicorn'',
                      ''cf-ray'' \<mapsto> ''8a1b2c3d4e5f-AMS''],
      resp_status_code = 200\<rparr>\<close>

definition plain_response :: response where
  "plain_response =
     \<lparr>resp_text = ''<html><body>Not Found</body></html>'',
      resp_headers = [''content-type'' \<mapsto> ''text/html''],
      resp_status_code = 404\<rparr>"

definition challenge_response :: response where
  \<open>challenge_response =
     \<lparr>resp_text = ''<title>Attention Required! | Cloudflare</title> {"data": 1} graphql'',
      resp_headers = [''content-type'' \<mapsto> ''application/json'', ''server'' \<mapsto> ''cloudflare''],
      resp_status_code = 403\<rparr>\<close>

definition env_of :: "fetch \<Rightarrow> fetch \<Rightarrow> env" where
  "env_of over_https over_http =
     \<lparr>http_get = (\<lambda>url request_headers timeout.
                    if prefix ''https://'' url then over_https else over_http),
      now_isoformat = (\<lambda>k. ''2024-05-01T12:00:00.000000''),
      random_choice = (\<lambda>k. k)\<rparr>"

definition demo_outcome :: dict where
  "demo_outcome =
     [(''url'', PStr ''https://example.com/api''), (''domain'', PStr ''example.com''),
      (''path'', PStr ''/api''), (''scheme'', PStr ''https''), (''is_api'', PBool True),
      (''api_type'', PStr ''REST/JSON''), (''timestamp'', PStr ''2024-05-01T12:00:00.000000''),
      (''status_code'', PInt 200), (''server'', PStr ''gunicorn''),
      (''cloudflare'', PBool True)]"

definition demo_envs :: "nat \<Rightarrow> env" where
  "demo_envs i =
     (if i = 0 then env_of (Returns json_response) (Returns json_response)
      else if i = 1 then env_of (Raises SSLError) (Returns plain_response)
      else if i = 2 then env_of (Returns challenge_response) (Returns json_response)
      else env_of (Raises Timeout) (Raises ConnectionError))"

definition demo_pick :: "nat \<Rightarrow> nat" where
  "demo_pick n = 2 * n + 1"

text \<open>
  A stand-in for the JSON library that knows the documents of the examples: the array
  of one and of two copies of the outcome above. Every other text is unparseable to it.
\<close>

definition demo_lib :: json_lib where
  "demo_lib =
     \<lparr>json_load = (\<lambda>s. if s = ''[outcome]'' then Some (JArr [dict_json demo_outcome])
                       else if s = ''[outcome, outcome]''
                       then Some (JArr [dict_json demo_outcome, dict_json demo_outcome])
                       else None),
      json_dump = (\<lambda>j. if j = JArr [dict_json demo_outcome] then ''[outcome]''
                       else if j = JArr [dict_json demo_outcome, dict_json demo_outcome]
                       then ''[outcome, outcome]''
                       else ''null'')\<rparr>"

section \<open>Properties of the classifier\<close>

lemma detect_api_cases:
  "cloudflare_block (lower t) \<and> detect_api t h u = (False, Some ''Cloudflare Block'')
   \<or> \<not> cloudflare_block (lower t) \<and> fst (detect_api t h u)
       \<and> snd (detect_api t h u) \<in> Some ` set api_labels
   \<or> \<not> cloudflare_block (lower t) \<and> detect_api t h u = (False, None)"
  by (simp add: detect_api_def Let_def api_labels_def)

text \<open>
  Claim C1, amended. The label returned by \<open>detect_api\<close> is present exactly when the
  verdict is positive or the body carries the Cloudflare challenge marker. A positive
  verdict always comes with one of the six protocol labels; on the challenge marker the
  function returns the negative verdict together with the label \<open>Cloudflare Block\<close>.
\<close>

theorem C1_label_presence:
  "((snd (detect_api t h u) \<noteq> None) = (fst (detect_api t h u) \<or> cloudflare_block (lower t)))
   \<and> (fst (detect_api t h u) \<longrightarrow> snd (detect_api t h u) \<in> Some ` set api_labels)
   \<and> (cloudflare_block (lower t) \<longrightarrow> detect_api t h u = (False, Some ''Cloudflare Block''))"
  using detect_api_cases[of t h u] by auto

theorem C1_label_presence_witness:
  "cloudflare_block (lower (resp_text challenge_response))
   \<and> detect_api (resp_text challenge_response) (resp_headers challenge_response) ''https://example.com/api''
       = (False, Some ''Cloudflare Block'')
   \<and> fst (detect_api (resp_text json_response) (resp_headers json_response) ''https://example.com/api'')
   \<and> snd (detect_api (resp_text json_response) (resp_headers json_response) ''https://example.com/api'')
       \<in> Some ` set api_labels"
proof -
  have blocked: "cloudflare_block (lower (resp_text challenge_response))"
    by code_simp
  have api: "fst (detect_api (resp_text json_response) (resp_headers json_response) ''https://example.com/api'')"
    by code_simp
  from C1_label_presence[of "resp_text challenge_response" "resp_headers challenge_response" "''https://example.com/api''"]
       C1_label_presence[of "resp_text json_response" "resp_headers json_response" "''https://example.com/api''"]
       blocked api
  show ?thesis by blast
qed

text \<open>
  Claim C1 as the specification states it, a label exactly when the verdict is positive,
  fails on a Cloudflare challenge page: the verdict is negative and the label is
  \<open>Cloudflare Block\<close>.
\<close>

theorem C1_label_without_api_counterexample:
  "snd (detect_api ''Cloudflare challenge page'' Map.empty ''https://example.com/'') \<noteq> None
   \<and> fst (detect_api ''Cloudflare challenge page'' Map.empty ''https://example.com/'') = False"
  by code_simp

text \<open>
  Claim C2. A body that carries the challenge marker (it mentions \<open>cloudflare\<close> and one of
  \<open>challenge\<close>, \<open>attention required\<close>, in any letter case) gets the negative verdict, whatever
  else the body and the headers contain: the challenge test comes before every other test.
\<close>

theorem C2_challenge_precedence:
  "cloudflare_block (lower t) \<Longrightarrow> fst (detect_api t h u) = False"
  by (simp add: detect_api_def)

theorem C2_challenge_precedence_witness:
  \<open>cloudflare_block (lower (resp_text challenge_response))
   \<and> contains ''application/json'' (lower (headers_get (resp_headers challenge_response) ''content-type'' ''''))
   \<and> mentions_any json_indicators (lower (resp_text challenge_response))
   \<and> contains ''graphql'' (lower (resp_text challenge_response))
   \<and> fst (detect_api (resp_text challenge_response) (resp_headers challenge_response) ''https://example.com/api'') = False\<close>
proof -
  have blocked: "cloudflare_block (lower (resp_text challenge_response))"
    by code_simp
  have json: "contains ''application/json'' (lower (headers_get (resp_headers challenge_response) ''content-type'' ''''))"
    by code_simp
  have body: "mentions_any json_indicators (lower (resp_text challenge_response))"
    by code_simp
  have gql: "contains ''graphql'' (lower (resp_text challenge_response))"
    by code_simp
  from C2_challenge_precedence[OF blocked] blocked json body gql show ?thesis
    by blast
qed

text \<open>
  Claim C5, amended. Without a challenge marker in the body, a JSON content type and a
  body that mentions \<open>graphql\<close> give \<open>(True, REST/JSON)\<close>. Without a challenge marker,
  without a JSON content type and without one of the JSON tokens in the body, a body that
  contains \<open>"query"\<close> and mentions \<open>graphiql\<close> gives \<open>(True, GraphQL)\<close>.
\<close>

theorem C5_json_before_graphql:
  \<open>(\<not> cloudflare_block (lower t)
      \<and> contains ''application/json'' (lower (headers_get h ''content-type'' ''''))
      \<and> contains ''graphql'' (lower t)
      \<longrightarrow> detect_api t h u = (True, Some ''REST/JSON''))
   \<and> (\<not> cloudflare_block (lower t)
      \<and> \<not> contains ''application/json'' (lower (headers_get h ''content-type'' ''''))
      \<and> \<not> mentions_any json_indicators (lower t)
      \<and> contains ''"query"'' (lower t) \<and> contains ''graphiql'' (lower t)
      \<longrightarrow> detect_api t h u = (True, Some ''GraphQL''))\<close>
  by (simp add: detect_api_def)

theorem C5_json_before_graphql_witness:
  \<open>detect_api ''GraphQL endpoint ready'' [''content-type'' \<mapsto> ''application/json; charset=utf-8''] ''https://example.com/graphql''
     = (True, Some ''REST/JSON'')
   \<and> detect_api ''<div id="graphiql">Loading "query" editor</div>'' [''content-type'' \<mapsto> ''text/html''] ''https://example.com/graphql''
     = (True, Some ''GraphQL'')\<close>
proof -
  have a: \<open>\<not> cloudflare_block (lower ''GraphQL endpoint ready'')
      \<and> contains ''application/json'' (lower (headers_get [''content-type'' \<mapsto> ''application/json; charset=utf-8''] ''content-type'' ''''))
      \<and> contains ''graphql'' (lower ''GraphQL endpoint ready'')\<close>
    by code_simp
  have b: \<open>\<not> cloudflare_block (lower ''<div id="graphiql">Loading "query" editor</div>'')
      \<and> \<not> contains ''application/json'' (lower (headers_get [''content-type'' \<mapsto> ''text/html''] ''content-type'' ''''))
      \<and> \<not> mentions_any json_indicators (lower ''<div id="graphiql">Loading "query" editor</div>'')
      \<and> contains ''"query"'' (lower ''<div id="graphiql">Loading "query" editor</div>'')
      \<and> contains ''graphiql'' (lower ''<div id="graphiql">Loading "query" editor</div>'')\<close>
    by code_simp
  from C5_json_before_graphql[of "''GraphQL endpoint ready''" "[''content-type'' \<mapsto> ''application/json; charset=utf-8'']" "''https://example.com/graphql''"] a
  have 1: "detect_api ''GraphQL endpoint ready'' [''content-type'' \<mapsto> ''application/json; charset=utf-8''] ''https://example.com/graphql''
     = (True, Some ''REST/JSON'')" by blast
  from C5_json_before_graphql[of \<open>''<div id="graphiql">Loading "query" editor</div>''\<close> "[''content-type'' \<mapsto> ''text/html'']" "''https://example.com/graphql''"] b
  have 2: \<open>detect_api ''<div id="graphiql">Loading "query" editor</div>'' [''content-type'' \<mapsto> ''text/html''] ''https://example.com/graphql''
     = (True, Some ''GraphQL'')\<close> by blast
  from 1 2 show ?thesis by blast
qed

text \<open>
  Claim C5 as the specification states it fails in both halves: a challenge page with a
  JSON content type that mentions \<open>graphql\<close> is not REST/JSON, and a body such as
  \<open>{"query": "graphiql"}\<close> without a JSON content type is caught by the JSON token test
  before the GraphQL test.
\<close>

theorem C5_precedence_counterexample:
  \<open>contains ''application/json'' (lower (headers_get [''content-type'' \<mapsto> ''application/json''] ''content-type'' ''''))
   \<and> contains ''graphql'' (lower ''Cloudflare challenge for /graphql'')
   \<and> detect_api ''Cloudflare challenge for /graphql'' [''content-type'' \<mapsto> ''application/json''] ''https://example.com/graphql''
       \<noteq> (True, Some ''REST/JSON'')
   \<and> \<not> contains ''application/json'' (lower (headers_get Map.empty ''content-type'' ''''))
   \<and> contains ''"query"'' (lower ''{"query": "graphiql"}'')
   \<and> contains ''graphiql'' (lower ''{"query": "graphiql"}'')
   \<and> detect_api ''{"query": "graphiql"}'' Map.empty ''https://example.com/graphql''
       \<noteq> (True, Some ''GraphQL'')\<close>
  by code_simp

section \<open>Properties of the probe\<close>

lemma scan_schemes_step:
  "scan_schemes e d p t k (s # rest) =
     (if attempt_positive e (build_url s d p) k t
      then (case http_get e (build_url s d p) (get_random_headers (random_choice e k)) t of
              Returns resp \<Rightarrow>
                (let api_type = snd (detect_api (resp_text resp) (resp_headers resp) (build_url s d p));
                     r = positive_result (initial_result (build_url s d p) d p s (now_isoformat e k))
                           api_type resp
                 in (Some r, [Get (build_url s d p), Print (found_message (build_url s d p) api_type r)]))
            | Raises x \<Rightarrow> (None, []))
      else (fst (scan_schemes e d p t (Suc k) rest),
            Get (build_url s d p) # snd (scan_schemes e d p t (Suc k) rest)))"
  by (simp add: scan_schemes.simps(2) attempt_positive_def Let_def
           split: fetch.splits request_exception.splits prod.splits)

lemma requested_urls_append: "requested_urls (xs @ ys) = requested_urls xs @ requested_urls ys"
  by (induction xs rule: requested_urls.induct) simp_all

lemma scan_schemes_positive:
  "attempt_positive e (build_url s d p) k t \<Longrightarrow>
   \<exists>r m. scan_schemes e d p t k (s # rest) = (Some r, [Get (build_url s d p), Print m])
         \<and> map_of r ''scheme'' = Some (PStr s)"
  by (cases "http_get e (build_url s d p) (get_random_headers (random_choice e k)) t")
     (simp_all add: scan_schemes_step attempt_positive_def Let_def positive_result_def
                    initial_result_def update_conv')

lemma scan_schemes_miss:
  "\<not> attempt_positive e (build_url s d p) k t \<Longrightarrow>
   scan_schemes e d p t k (s # rest) =
     (fst (scan_schemes e d p t (Suc k) rest),
      Get (build_url s d p) # snd (scan_schemes e d p t (Suc k) rest))"
  by (simp add: scan_schemes_step)

lemma attempt_raises_miss: "attempt_raises e url k t \<Longrightarrow> \<not> attempt_positive e url k t"
  by (simp add: attempt_raises_def attempt_positive_def split: fetch.splits)

lemma scan_schemes_no_sleep: "sleeps (snd (scan_schemes e d p t k schemes)) = []"
  by (induction schemes arbitrary: k) (simp_all add: scan_schemes_step Let_def split: fetch.splits)

lemma scan_schemes_requests:
  "requested_urls (snd (scan_schemes e d p t k (s # rest))) =
     build_url s d p #
       (if attempt_positive e (build_url s d p) k t then []
        else requested_urls (snd (scan_schemes e d p t (Suc k) rest)))"
proof (cases "attempt_positive e (build_url s d p) k t")
  case True
  from scan_schemes_positive[OF True, of rest] show ?thesis using True by auto
next
  case False
  then show ?thesis by (simp add: scan_schemes_miss)
qed

lemma scan_domain_path_requests:
  "requested_urls (snd (scan_domain_path e d p t delay)) =
     requested_urls (snd (scan_schemes e d p t 0 [''https'', ''http'']))"
  by (simp add: scan_domain_path_def requested_urls_append split: prod.splits)

lemma scan_domain_path_fst:
  "fst (scan_domain_path e d p t delay) = fst (scan_schemes e d p t 0 [''https'', ''http''])"
  by (simp add: scan_domain_path_def split: prod.splits)

text \<open>
  Claim C3. A probe requests the HTTPS URL first. If that attempt is answered by a
  response classified as an API, the probe returns the HTTPS outcome and requests
  nothing else. Otherwise it requests the HTTP URL next, returns the HTTP outcome if
  that response is classified as an API, and returns nothing if neither attempt is.
\<close>

theorem C3_scheme_order:
  "requested_urls (snd (scan_domain_path e d p t delay)) =
     (if attempt_positive e (build_url ''https'' d p) 0 t then [build_url ''https'' d p]
      else [build_url ''https'' d p, build_url ''http'' d p])
   \<and> (attempt_positive e (build_url ''https'' d p) 0 t \<longrightarrow>
        (\<exists>r. fst (scan_domain_path e d p t delay) = Some r
             \<and> map_of r ''scheme'' = Some (PStr ''https'')))
   \<and> (\<not> attempt_positive e (build_url ''https'' d p) 0 t
        \<and> attempt_positive e (build_url ''http'' d p) 1 t \<longrightarrow>
        (\<exists>r. fst (scan_domain_path e d p t delay) = Some r
             \<and> map_of r ''scheme'' = Some (PStr ''http'')))
   \<and> (\<not> attempt_positive e (build_url ''https'' d p) 0 t
        \<and> \<not> attempt_positive e (build_url ''http'' d p) 1 t \<longrightarrow>
        fst (scan_domain_path e d p t delay) = None)"
proof (cases "attempt_positive e (build_url ''https'' d p) 0 t")
  case True
  from scan_schemes_positive[OF True, of "[''http'']"] obtain r m where
    "scan_schemes e d p t 0 [''https'', ''http''] = (Some r, [Get (build_url ''https'' d p), Print m])"
    "map_of r ''scheme'' = Some (PStr ''https'')"
    by blast
  with True show ?thesis
    by (simp add: scan_domain_path_requests scan_domain_path_fst)
next
  case https_miss: False
  show ?thesis
  proof (cases "attempt_positive e (build_url ''http'' d p) (Suc 0) t")
    case True
    from scan_schemes_positive[OF True, of "[]"] obtain r m where
      "scan_schemes e d p t (Suc 0) [''http''] = (Some r, [Get (build_url ''http'' d p), Print m])"
      "map_of r ''scheme'' = Some (PStr ''http'')"
      by blast
    with True https_miss show ?thesis
      by (simp add: scan_domain_path_requests scan_domain_path_fst scan_schemes_miss)
  next
    case False
    with https_miss show ?thesis
      by (simp add: scan_domain_path_requests scan_domain_path_fst scan_schemes_miss)
  qed
qed

theorem C3_scheme_order_witness:
  "attempt_positive (env_of (Returns json_response) (Returns json_response)) ''https://example.com/api'' 0 10
   \<and> requested_urls (snd (scan_domain_path (env_of (Returns json_response) (Returns json_response))
                              ''example.com'' ''/api'' 10 1))
       = [''https://example.com/api'']
   \<and> \<not> attempt_positive (env_of (Returns plain_response) (Returns json_response)) ''https://example.com/api'' 0 10
   \<and> attempt_positive (env_of (Returns plain_response) (Returns json_response)) ''http://example.com/api'' 1 10
   \<and> requested_urls (snd (scan_domain_path (env_of (Returns plain_response) (Returns json_response))
                              ''example.com'' ''/api'' 10 1))
       = [''https://example.com/api'', ''http://example.com/api'']
   \<and> (\<exists>r. fst (scan_domain_path (env_of (Returns plain_response) (Returns json_response))
                  ''example.com'' ''/api'' 10 1) = Some r
           \<and> map_of r ''scheme'' = Some (PStr ''http''))
   \<and> \<not> attempt_positive (env_of (Returns plain_response) (Returns plain_response)) ''https://example.com/api'' 0 10
   \<and> \<not> attempt_positive (env_of (Returns plain_response) (Returns plain_response)) ''http://example.com/api'' 1 10
   \<and> fst (scan_domain_path (env_of (Returns plain_response) (Returns plain_response))
             ''example.com'' ''/api'' 10 1) = None"
proof -
  have urls: "build_url ''https'' ''example.com'' ''/api'' = ''https://example.com/api''"
             "build_url ''http'' ''example.com'' ''/api'' = ''http://example.com/api''"
    by (simp_all add: build_url_def)
  have a: "attempt_positive (env_of (Returns json_response) (Returns json_response)) ''https://example.com/api'' 0 10"
    by code_simp
  have b: "\<not> attempt_positive (env_of (Returns plain_response) (Returns json_response)) ''https://example.com/api'' 0 10"
          "attempt_positive (env_of (Returns plain_response) (Returns json_response)) ''http://example.com/api'' 1 10"
    by code_simp+
  have c: "\<not> attempt_positive (env_of (Returns plain_response) (Returns plain_response)) ''https://example.com/api'' 0 10"
          "\<not> attempt_positive (env_of (Returns plain_response) (Returns plain_response)) ''http://example.com/api'' 1 10"
    by code_simp+
  from C3_scheme_order[of "env_of (Returns json_response) (Returns json_response)" "''example.com''" "''/api''" 10 1]
       C3_scheme_order[of "env_of (Returns plain_response) (Returns json_response)" "''example.com''" "''/api''" 10 1]
       C3_scheme_order[of "env_of (Returns plain_response) (Returns plain_response)" "''example.com''" "''/api''" 10 1]
       a b c
  show ?thesis unfolding urls by simp
qed

text \<open>
  Claim C4. An exception raised by the request of one scheme (TLS failure, timeout,
  connection failure or any other exception) is a miss for that scheme: after a failing
  HTTPS attempt the HTTP URL is requested and decides the result; when the HTTP attempt
  raises after an HTTPS attempt without a positive classification, the probe returns
  nothing, having requested both URLs. The probe returns a value in every case.
\<close>

theorem C4_transport_errors:
  "(attempt_raises e (build_url ''https'' d p) 0 t \<longrightarrow>
      requested_urls (snd (scan_domain_path e d p t delay))
        = [build_url ''https'' d p, build_url ''http'' d p]
      \<and> fst (scan_domain_path e d p t delay) = fst (scan_schemes e d p t 1 [''http'']))
   \<and> (\<not> attempt_positive e (build_url ''https'' d p) 0 t
      \<and> attempt_raises e (build_url ''http'' d p) 1 t \<longrightarrow>
      scan_domain_path e d p t delay =
        (None, (if delay > 0 then [Sleep delay] else [])
               @ [Get (build_url ''https'' d p), Get (build_url ''http'' d p)]))"
proof (intro conjI impI)
  assume "attempt_raises e (build_url ''https'' d p) 0 t"
  then have miss: "\<not> attempt_positive e (build_url ''https'' d p) 0 t"
    by (rule attempt_raises_miss)
  then show "requested_urls (snd (scan_domain_path e d p t delay))
               = [build_url ''https'' d p, build_url ''http'' d p]"
    by (simp add: scan_domain_path_requests scan_schemes_requests)
  from miss show "fst (scan_domain_path e d p t delay) = fst (scan_schemes e d p t 1 [''http''])"
    by (simp add: scan_domain_path_fst scan_schemes_miss)
next
  assume a: "\<not> attempt_positive e (build_url ''https'' d p) 0 t
             \<and> attempt_raises e (build_url ''http'' d p) 1 t"
  then have "\<not> attempt_positive e (build_url ''http'' d p) (Suc 0) t"
    by (simp add: attempt_raises_miss)
  with a show "scan_domain_path e d p t delay =
        (None, (if delay > 0 then [Sleep delay] else [])
               @ [Get (build_url ''https'' d p), Get (build_url ''http'' d p)])"
    by (simp add: scan_domain_path_def scan_schemes_miss)
qed

theorem C4_transport_errors_witness:
  "attempt_raises (env_of (Raises SSLError) (Returns json_response)) ''https://example.com/api'' 0 10
   \<and> requested_urls (snd (scan_domain_path (env_of (Raises SSLError) (Returns json_response))
                              ''example.com'' ''/api'' 10 0))
       = [''https://example.com/api'', ''http://example.com/api'']
   \<and> attempt_raises (env_of (Raises Timeout) (Raises ConnectionError)) ''https://example.com/api'' 0 10
   \<and> attempt_raises (env_of (Raises Timeout) (Raises ConnectionError)) ''http://example.com/api'' 1 10
   \<and> scan_domain_path (env_of (Raises Timeout) (Raises ConnectionError)) ''example.com'' ''/api'' 10 0
       = (None, [Get ''https://example.com/api'', Get ''http://example.com/api''])
   \<and> \<not> attempt_positive (env_of (Returns challenge_response) (Raises OtherException)) ''https://example.com/api'' 0 10
   \<and> attempt_raises (env_of (Returns challenge_response) (Raises OtherException)) ''http://example.com/api'' 1 10
   \<and> fst (scan_domain_path (env_of (Returns challenge_response) (Raises OtherException)) ''example.com'' ''/api'' 10 0)
       = None"
proof -
  have urls: "build_url ''https'' ''example.com'' ''/api'' = ''https://example.com/api''"
             "build_url ''http'' ''example.com'' ''/api'' = ''http://example.com/api''"
    by (simp_all add: build_url_def)
  have a: "attempt_raises (env_of (Raises SSLError) (Returns json_response)) ''https://example.com/api'' 0 10"
    by code_simp
  have b: "attempt_raises (env_of (Raises Timeout) (Raises ConnectionError)) ''https://example.com/api'' 0 10"
          "attempt_raises (env_of (Raises Timeout) (Raises ConnectionError)) ''http://example.com/api'' 1 10"
    by code_simp+
  have b': "\<not> attempt_positive (env_of (Raises Timeout) (Raises ConnectionError)) ''https://example.com/api'' 0 10"
    by code_simp
  have c: "\<not> attempt_positive (env_of (Returns challenge_response) (Raises OtherException)) ''https://example.com/api'' 0 10"
          "attempt_raises (env_of (Returns challenge_response) (Raises OtherException)) ''http://example.com/api'' 1 10"
    by code_simp+
  from C4_transport_errors[of "env_of (Raises SSLError) (Returns json_response)" "''example.com''" "''/api''" 10 0]
       C4_transport_errors[of "env_of (Raises Timeout) (Raises ConnectionError)" "''example.com''" "''/api''" 10 0]
       C4_transport_errors[of "env_of (Returns challenge_response) (Raises OtherException)" "''example.com''" "''/api''" 10 0]
       a b b' c
  show ?thesis unfolding urls by simp
qed

text \<open>
  Claim C9. With a positive delay, the events of a probe start with one sleep of that
  duration; no other sleep follows, and every request of the probe comes after it,
  whether one scheme is tried or both.
\<close>

theorem C9_sleep_once:
  "delay > 0 \<Longrightarrow>
   \<exists>rest. snd (scan_domain_path e d p t delay) = Sleep delay # rest
        \<and> sleeps rest = [] \<and> requested_urls rest \<noteq> []"
proof -
  assume "delay > 0"
  then have "snd (scan_domain_path e d p t delay)
               = Sleep delay # snd (scan_schemes e d p t 0 [''https'', ''http''])"
    by (simp add: scan_domain_path_def split: prod.splits)
  moreover have "sleeps (snd (scan_schemes e d p t 0 [''https'', ''http''])) = []"
    by (rule scan_schemes_no_sleep)
  moreover have "requested_urls (snd (scan_schemes e d p t 0 [''https'', ''http''])) \<noteq> []"
    by (simp add: scan_schemes_requests)
  ultimately show ?thesis by blast
qed

theorem C9_sleep_once_witness:
  "(1/2 :: real) > 0
   \<and> snd (scan_domain_path (env_of (Raises SSLError) (Returns plain_response)) ''example.com'' ''/api'' 10 (1/2))
       = [Sleep (1/2), Get ''https://example.com/api'', Get ''http://example.com/api'']
   \<and> (\<exists>rest. snd (scan_domain_path (env_of (Raises SSLError) (Returns plain_response)) ''example.com'' ''/api'' 10 (1/2))
                 = Sleep (1/2) # rest \<and> sleeps rest = [] \<and> requested_urls rest \<noteq> [])"
proof -
  have pos: "(1/2 :: real) > 0" by simp
  have run: "snd (scan_domain_path (env_of (Raises SSLError) (Returns plain_response)) ''example.com'' ''/api'' 10 (1/2))
       = [Sleep (1/2), Get ''https://example.com/api'', Get ''http://example.com/api'']"
    by code_simp
  from C9_sleep_once[OF pos, of "env_of (Raises SSLError) (Returns plain_response)" "''example.com''" "''/api''" 10] pos run
  show ?thesis by blast
qed

section \<open>Properties of the scheduler\<close>

lemma make_targets_product: "make_targets domains paths = List.product domains paths"
  by (induction domains) (simp_all add: make_targets_def)

lemma mset_as_completed: "mset (as_completed pick n pending) = mset pending"
proof (induction pick n pending rule: as_completed.induct)
  case (1 pick n pending)
  show ?case
  proof (cases "pending = []")
    case True
    then show ?thesis by (simp add: as_completed.simps)
  next
    case False
    define i where "i = pick n mod length pending"
    from False have i: "i < length pending" by (simp add: i_def)
    have "mset (as_completed pick n pending)
            = add_mset (pending ! i) (mset (take i pending @ drop (Suc i) pending))"
      using False 1[OF False i_def] by (subst as_completed.simps) (simp add: i_def Let_def)
    also have "\<dots> = mset (take i pending @ pending ! i # drop (Suc i) pending)"
      by simp
    also have "\<dots> = mset pending"
      using id_take_nth_drop[OF i] by simp
    finally show ?thesis .
  qed
qed

lemma consume_completed: "completed (consume n r st) = Suc (completed st)"
  by (simp add: consume_def Let_def split: option.splits)

lemma consume_history:
  "completed_history (consume n r st) = completed_history st @ [Suc (completed st)]"
  by (simp add: consume_def Let_def split: option.splits)

lemma consume_results:
  "results (consume n r st) =
     (case r of None \<Rightarrow> results st
      | Some d \<Rightarrow> if d \<noteq> [] then results st @ [d] else results st)"
  by (simp add: consume_def Let_def split: option.splits)

lemma collect_completed: "completed (collect n futures st) = completed st + length futures"
  by (induction futures arbitrary: st) (simp_all add: consume_completed)

lemma collect_history:
  "completed_history st = [0..<Suc (completed st)] \<Longrightarrow>
   completed_history (collect n futures st) = [0..<Suc (completed st + length futures)]"
proof (induction futures arbitrary: st)
  case Nil
  then show ?case by simp
next
  case (Cons future futures)
  have "completed_history (consume n (fst future) st) = [0..<Suc (completed (consume n (fst future) st))]"
    using Cons.prems by (simp add: consume_history consume_completed)
  from Cons.IH[OF this] show ?case by (simp add: consume_completed)
qed

lemma collect_results_length:
  "length (results (collect n futures st)) \<le> length (results st) + length futures"
proof (induction futures arbitrary: st)
  case Nil
  then show ?case by simp
next
  case (Cons future futures)
  have "length (results (consume n (fst future) st)) \<le> Suc (length (results st))"
    by (simp add: consume_results split: option.splits)
  with Cons.IH[of "consume n (fst future) st"] show ?case by simp
qed

lemma collect_results_set:
  "set (results (collect n futures st)) \<subseteq> set (results st) \<union> {d. Some d \<in> fst ` set futures}"
proof (induction futures arbitrary: st)
  case Nil
  then show ?case by simp
next
  case (Cons future futures)
  have "set (results (consume n (fst future) st)) \<subseteq> set (results st) \<union> {d. Some d = fst future}"
    by (auto simp: consume_results split: option.splits if_splits)
  with Cons.IH[of "consume n (fst future) st"] show ?case by auto
qed

lemma submit_all_length: "length (submit_all envs delay targets) = length targets"
  by (simp add: submit_all_def)

lemma submit_all_member:
  "x \<in> set (submit_all envs delay targets) \<Longrightarrow>
   \<exists>i d p. x = scan_domain_path (envs i) d p 10 delay"
  by (auto simp: submit_all_def in_set_enumerate_eq)

lemma scan_domain_path_requests_nonempty:
  "requested_urls (snd (scan_domain_path e d p t delay)) \<noteq> []"
  by (simp add: scan_domain_path_requests scan_schemes_requests)

lemma main_scan_Inr:
  "0 < threads \<Longrightarrow>
   main_scan envs pick domains paths threads delay =
     Inr (collect (length (make_targets domains paths))
            (as_completed pick 0 (submit_all envs delay (make_targets domains paths))) initial_state,
          map snd (as_completed pick 0 (submit_all envs delay (make_targets domains paths))))"
  by (simp add: main_scan_def Let_def)

lemma main_scan_Inr_iff:
  "main_scan envs pick domains paths threads delay = Inr (st, logs) \<Longrightarrow> 0 < threads"
  by (simp add: main_scan_def Let_def split: if_splits)

lemma length_as_completed: "length (as_completed pick n pending) = length pending"
  using mset_as_completed[of pick n pending] by (metis size_mset)

lemma set_as_completed: "set (as_completed pick n pending) = set pending"
  using mset_as_completed[of pick n pending] by (metis set_mset_mset)

lemma count_list_upt_last: "count_list [0..<Suc n] n = 1"
proof -
  have "count (mset [0..<Suc n]) n = 1"
    by (simp add: distinct_count_atmost_1[THEN iffD1])
  then show ?thesis by (simp only: count_mset)
qed

text \<open>
  Claim C8. The targets are the cross product of the hosts and the paths, in number
  \<open>N = |hosts| * |paths|\<close>. With a positive number of workers the scan loop ends
  normally, whatever the order in which the probes complete: the probes that ran are
  those of the targets, each once, \<open>N\<close> in all, and every one issued a request; the counter
  \<open>completed\<close> took the values \<open>0, 1, ..., N\<close> in turn, so it holds \<open>N\<close> once, at the end;
  the number of outcomes collected is at most \<open>N\<close>.
\<close>

theorem C8_scheduler_counts:
  assumes "0 < threads"
  shows "make_targets domains paths = List.product domains paths
   \<and> length (make_targets domains paths) = length domains * length paths
   \<and> (\<exists>st logs. main_scan envs pick domains paths threads delay = Inr (st, logs)
        \<and> mset logs = mset (map snd (submit_all envs delay (make_targets domains paths)))
        \<and> length logs = length domains * length paths
        \<and> (\<forall>log \<in> set logs. requested_urls log \<noteq> [])
        \<and> completed st = length domains * length paths
        \<and> completed_history st = [0..<Suc (length domains * length paths)]
        \<and> count_list (completed_history st) (length domains * length paths) = 1
        \<and> last (completed_history st) = length domains * length paths
        \<and> length (results st) \<le> length domains * length paths)"
proof -
  define targets where "targets = make_targets domains paths"
  define finished where "finished = as_completed pick 0 (submit_all envs delay targets)"
  define st where "st = collect (length targets) finished initial_state"
  have n: "length targets = length domains * length paths"
    by (simp add: targets_def make_targets_product)
  have len: "length finished = length domains * length paths"
    by (simp add: finished_def length_as_completed submit_all_length n)
  have run: "main_scan envs pick domains paths threads delay = Inr (st, map snd finished)"
    using assms by (simp add: main_scan_Inr st_def finished_def targets_def)
  have logs: "mset (map snd finished) = mset (map snd (submit_all envs delay targets))"
    by (simp add: finished_def mset_as_completed)
  have attempted: "\<forall>log \<in> set (map snd finished). requested_urls log \<noteq> []"
  proof
    fix log assume "log \<in> set (map snd finished)"
    then obtain x where "x \<in> set (submit_all envs delay targets)" "log = snd x"
      by (auto simp: finished_def set_as_completed)
    with submit_all_member[of x envs delay targets] show "requested_urls log \<noteq> []"
      by (auto simp: scan_domain_path_requests_nonempty)
  qed
  have c: "completed st = length domains * length paths"
    by (simp add: st_def collect_completed initial_state_def len)
  have h: "completed_history st = [0..<Suc (length domains * length paths)]"
    using collect_history[of initial_state "length targets" finished]
    by (simp add: st_def initial_state_def len)
  have r: "length (results st) \<le> length domains * length paths"
    using collect_results_length[of "length targets" finished initial_state]
    by (simp add: st_def initial_state_def len)
  have once: "count_list (completed_history st) (length domains * length paths) = 1"
    unfolding h by (rule count_list_upt_last)
  have final: "last (completed_history st) = length domains * length paths"
    unfolding h by simp
  from run logs attempted c h r once final len
  have "\<exists>st logs. main_scan envs pick domains paths threads delay = Inr (st, logs)
        \<and> mset logs = mset (map snd (submit_all envs delay (make_targets domains paths)))
        \<and> length logs = length domains * length paths
        \<and> (\<forall>log \<in> set logs. requested_urls log \<noteq> [])
        \<and> completed st = length domains * length paths
        \<and> completed_history st = [0..<Suc (length domains * length paths)]
        \<and> count_list (completed_history st) (length domains * length paths) = 1
        \<and> last (completed_history st) = length domains * length paths
        \<and> length (results st) \<le> length domains * length paths"
    unfolding targets_def by (intro exI[of _ st] exI[of _ "map snd finished"]) simp
  with n show ?thesis
    by (simp add: make_targets_product targets_def)
qed

theorem C8_scheduler_counts_witness:
  "(0::int) < 5
   \<and> make_targets [''a.example.com'', ''b.example.com''] [''/'', ''/api'', ''/v1'']
       = [(''a.example.com'', ''/''), (''a.example.com'', ''/api''), (''a.example.com'', ''/v1''),
          (''b.example.com'', ''/''), (''b.example.com'', ''/api''), (''b.example.com'', ''/v1'')]
   \<and> (\<exists>st logs. main_scan demo_envs demo_pick [''a.example.com'', ''b.example.com'']
                    [''/'', ''/api'', ''/v1''] 5 0 = Inr (st, logs)
          \<and> length logs = 6 \<and> completed st = 6
          \<and> completed_history st = [0, 1, 2, 3, 4, 5, 6]
          \<and> count_list (completed_history st) 6 = 1
          \<and> length (results st) \<le> 6)"
proof -
  have threads: "(0::int) < 5" by simp
  have six: "length [''a.example.com'', ''b.example.com''] * length [''/'', ''/api'', ''/v1'']
               = (6::nat)"
    by simp
  have upt: "[0..<Suc 6] = [0, 1, 2, 3, 4, 5, 6]" by code_simp
  have targets: "List.product [''a.example.com'', ''b.example.com''] [''/'', ''/api'', ''/v1'']
       = [(''a.example.com'', ''/''), (''a.example.com'', ''/api''), (''a.example.com'', ''/v1''),
          (''b.example.com'', ''/''), (''b.example.com'', ''/api''), (''b.example.com'', ''/v1'')]"
    by simp
  note run = C8_scheduler_counts[OF threads, of "[''a.example.com'', ''b.example.com'']"
               "[''/'', ''/api'', ''/v1'']" demo_envs demo_pick 0, unfolded six upt targets]
  from run obtain st logs where
    "main_scan demo_envs demo_pick [''a.example.com'', ''b.example.com'']
       [''/'', ''/api'', ''/v1''] 5 0 = Inr (st, logs)"
    "length logs = 6" "completed st = 6" "completed_history st = [0, 1, 2, 3, 4, 5, 6]"
    "count_list (completed_history st) 6 = 1" "length (results st) \<le> 6"
    by blast
  with run threads show ?thesis by blast
qed

lemma scan_schemes_Some:
  "fst (scan_schemes e d p t k schemes) = Some r \<Longrightarrow>
   \<exists>s k resp. s \<in> set schemes
      \<and> http_get e (build_url s d p) (get_random_headers (random_choice e k)) t = Returns resp
      \<and> map_of r ''url'' = Some (PStr (build_url s d p))
      \<and> outcome_from resp r"
proof (induction schemes arbitrary: k)
  case Nil
  then show ?case by simp
next
  case (Cons s rest)
  show ?case
  proof (cases "attempt_positive e (build_url s d p) k t")
    case True
    then obtain resp where
      resp: "http_get e (build_url s d p) (get_random_headers (random_choice e k)) t = Returns resp"
      and api: "fst (detect_api (resp_text resp) (resp_headers resp) (build_url s d p))"
      by (auto simp: attempt_positive_def split: fetch.splits)
    from api detect_api_cases[of "resp_text resp" "resp_headers resp" "build_url s d p"]
    obtain label where label: "label \<in> set api_labels"
      "snd (detect_api (resp_text resp) (resp_headers resp) (build_url s d p)) = Some label"
      by auto
    from Cons.prems True resp
    have r: "r = positive_result (initial_result (build_url s d p) d p s (now_isoformat e k))
                   (Some label) resp"
      by (simp add: scan_schemes_step Let_def label)
    have "map_of r ''url'' = Some (PStr (build_url s d p))"
      by (simp add: r positive_result_def initial_result_def update_conv')
    moreover have "outcome_from resp r"
      using label(1)
      by (auto simp: r outcome_from_def positive_result_def initial_result_def update_conv'
                    opt_pyval_def)
    ultimately show ?thesis using resp by auto
  next
    case False
    with Cons.prems have "fst (scan_schemes e d p t (Suc k) rest) = Some r"
      by (simp add: scan_schemes_miss)
    from Cons.IH[OF this] show ?thesis by auto
  qed
qed

lemma outcome_from_positive: "outcome_from resp r \<Longrightarrow> is_positive (Some r)"
  by (auto simp: outcome_from_def is_positive_def dict_get_def)

text \<open>
  Claim C10. An outcome returned by a probe was built from a response received over one
  of the two schemes: its \<open>is_api\<close> is true, its \<open>api_type\<close> is one of the six labels, and
  its \<open>status_code\<close>, \<open>server\<close> and \<open>cloudflare\<close> are set from that response,
  \<open>cloudflare\<close> being true exactly when the response headers have the key \<open>cf-ray\<close>.
  Every outcome that the scan loop collects is positive.
\<close>

theorem C10_outcomes_positive:
  "(fst (scan_domain_path e d p t delay) = Some r \<longrightarrow>
      (\<exists>s k resp. s \<in> {''https'', ''http''}
          \<and> http_get e (build_url s d p) (get_random_headers (random_choice e k)) t = Returns resp
          \<and> map_of r ''url'' = Some (PStr (build_url s d p))
          \<and> outcome_from resp r))
   \<and> (main_scan envs pick domains paths threads pause = Inr (st, logs) \<longrightarrow>
      (\<forall>r' \<in> set (results st). map_of r' ''is_api'' = Some (PBool True) \<and> is_positive (Some r')))"
proof (intro conjI impI)
  assume "fst (scan_domain_path e d p t delay) = Some r"
  then have "fst (scan_schemes e d p t 0 [''https'', ''http'']) = Some r"
    by (simp add: scan_domain_path_fst)
  from scan_schemes_Some[OF this]
  show "\<exists>s k resp. s \<in> {''https'', ''http''}
          \<and> http_get e (build_url s d p) (get_random_headers (random_choice e k)) t = Returns resp
          \<and> map_of r ''url'' = Some (PStr (build_url s d p))
          \<and> outcome_from resp r"
    by simp
next
  assume run: "main_scan envs pick domains paths threads pause = Inr (st, logs)"
  then have "0 < threads" by (rule main_scan_Inr_iff)
  from main_scan_Inr[OF this, of envs pick domains paths pause] run
  have st: "st = collect (length (make_targets domains paths))
            (as_completed pick 0 (submit_all envs pause (make_targets domains paths))) initial_state"
    by simp
  show "\<forall>r' \<in> set (results st). map_of r' ''is_api'' = Some (PBool True) \<and> is_positive (Some r')"
  proof
    fix r' assume "r' \<in> set (results st)"
    with collect_results_set[of "length (make_targets domains paths)"
           "as_completed pick 0 (submit_all envs pause (make_targets domains paths))" initial_state]
    have "Some r' \<in> fst ` set (submit_all envs pause (make_targets domains paths))"
      by (auto simp: st initial_state_def set_as_completed)
    then obtain x where "x \<in> set (submit_all envs pause (make_targets domains paths))"
      "fst x = Some r'" by force
    with submit_all_member[of x envs pause "make_targets domains paths"]
    obtain i d' p' where "fst (scan_domain_path (envs i) d' p' 10 pause) = Some r'"
      by auto
    then have "fst (scan_schemes (envs i) d' p' 10 0 [''https'', ''http'']) = Some r'"
      by (simp add: scan_domain_path_fst)
    from scan_schemes_Some[OF this] obtain resp where "outcome_from resp r'" by blast
    then show "map_of r' ''is_api'' = Some (PBool True) \<and> is_positive (Some r')"
      by (simp add: outcome_from_positive) (simp add: outcome_from_def)
  qed
qed

theorem C10_outcomes_positive_witness:
  "fst (scan_domain_path (demo_envs 0) ''example.com'' ''/api'' 10 0) = Some demo_outcome
   \<and> (\<exists>s k resp. s \<in> {''https'', ''http''}
          \<and> http_get (demo_envs 0) (build_url s ''example.com'' ''/api'')
                (get_random_headers (random_choice (demo_envs 0) k)) 10 = Returns resp
          \<and> map_of demo_outcome ''url'' = Some (PStr (build_url s ''example.com'' ''/api''))
          \<and> outcome_from resp demo_outcome)
   \<and> (\<exists>st logs. main_scan demo_envs demo_pick [''a.example.com'', ''b.example.com'']
                    [''/'', ''/api'', ''/v1''] 5 0 = Inr (st, logs)
          \<and> (\<forall>r' \<in> set (results st).
                 map_of r' ''is_api'' = Some (PBool True) \<and> is_positive (Some r')))"
proof -
  have probe: "fst (scan_domain_path (demo_envs 0) ''example.com'' ''/api'' 10 0) = Some demo_outcome"
    by code_simp
  have "(0::int) < 5" by simp
  from main_scan_Inr[OF this, of demo_envs demo_pick "[''a.example.com'', ''b.example.com'']"
         "[''/'', ''/api'', ''/v1'']" 0]
  obtain st logs where run: "main_scan demo_envs demo_pick [''a.example.com'', ''b.example.com'']
                    [''/'', ''/api'', ''/v1''] 5 0 = Inr (st, logs)"
    by blast
  from C10_outcomes_positive[of "demo_envs 0" "''example.com''" "''/api''" 10 0 demo_outcome
         demo_envs demo_pick "[''a.example.com'', ''b.example.com'']" "[''/'', ''/api'', ''/v1'']"
         5 0 st logs] probe run
  show ?thesis by blast
qed

section \<open>Properties of the result store\<close>

lemma replace_length:
  "old \<noteq> [] \<Longrightarrow> length old < length new \<Longrightarrow>
   length s \<le> length (replace old new s)
   \<and> (contains old s \<longrightarrow> length s < length (replace old new s))"
proof (induction old new s rule: replace.induct)
  case (1 old new)
  then show ?case by simp
next
  case (2 old new c cs)
  note nonempty = "2.prems"(1) and longer = "2.prems"(2)
  show ?case
  proof (cases "prefix old (c # cs)")
    case True
    then have le: "length old \<le> Suc (length cs)"
      by (auto dest: prefix_length_le)
    from "2.IH"(2)[OF nonempty True nonempty longer]
    have "length (drop (length old - 1) cs) \<le> length (replace old new (drop (length old - 1) cs))"
      by simp
    moreover from nonempty have "0 < length old" by simp
    ultimately show ?thesis using le longer nonempty True by simp arith
  next
    case False
    with "2.IH"(3)[OF nonempty False nonempty longer] nonempty show ?thesis by simp
  qed
qed

lemma json_file_differs:
  "contains ''.txt'' output_file \<Longrightarrow> replace ''.txt'' ''.json'' output_file \<noteq> output_file"
  using replace_length[of "''.txt''" "''.json''" output_file] by auto

lemma write_lines_error: "snd (write_lines rs f) = snd (write_lines rs g)"
proof (induction rs arbitrary: f g)
  case Nil
  then show ?case by simp
next
  case (Cons r rs)
  show ?case
  proof (cases r)
    case None
    with Cons.IH show ?thesis by simp
  next
    case (Some d)
    with Cons.IH[of f g] Cons.IH show ?thesis by (simp split: sum.splits)
  qed
qed

lemma write_lines_single:
  "is_positive (Some r) \<Longrightarrow> format_line r = Inr line \<Longrightarrow> write_lines [Some r] f = (f @ line, None)"
  by simp

lemma positives_single: "is_positive (Some r) \<Longrightarrow> positives [Some r] = [r]"
  by (simp add: positives_def)

lemma save_results_fresh:
  assumes "snd (write_lines rs []) = None"
      and "replace ''.txt'' ''.json'' output_file \<noteq> output_file"
  shows "save_results lib fs rs output_file =
     (let txt = fst (write_lines rs (case fs output_file of None \<Rightarrow> [] | Some s \<Rightarrow> s));
          json_file = replace ''.txt'' ''.json'' output_file;
          loaded = (case fs json_file of
                      None \<Rightarrow> JArr []
                    | Some s \<Rightarrow> (case json_load lib s of None \<Rightarrow> JArr [] | Some v \<Rightarrow> v))
      in case loaded of
           JArr existing \<Rightarrow>
             (fs(output_file \<mapsto> txt,
                 json_file \<mapsto> json_dump lib (JArr (existing @ map dict_json (positives rs)))), None)
         | JAtom a \<Rightarrow> (fs(output_file \<mapsto> txt), Some AttributeError)
         | JObj kvs \<Rightarrow> (fs(output_file \<mapsto> txt), Some AttributeError))"
proof -
  obtain written err where w: "write_lines rs (case fs output_file of None \<Rightarrow> [] | Some s \<Rightarrow> s) = (written, err)"
    by (cases "write_lines rs (case fs output_file of None \<Rightarrow> [] | Some s \<Rightarrow> s)")
  with assms(1) write_lines_error[of rs "case fs output_file of None \<Rightarrow> [] | Some s \<Rightarrow> s" "[]"]
  have "err = None" by simp
  with w assms(2) show ?thesis
    by (simp add: save_results_def Let_def split: json.splits option.splits)
qed

text \<open>
  Claim C6. Let the output path contain \<open>.txt\<close>, so that the structured file is a file
  of its own, let that file be absent, and let the JSON library read back the array of
  one outcome as it wrote it. Saving the same positive outcome twice succeeds both times
  and leaves in the structured file the array of exactly two entries, both that outcome:
  the merge appends and removes no duplicate.
\<close>

theorem C6_append_twice:
  assumes "is_positive (Some r)"
      and "format_line r = Inr line"
      and "contains ''.txt'' output_file"
      and "fs (replace ''.txt'' ''.json'' output_file) = None"
      and "json_load lib (json_dump lib (JArr [dict_json r])) = Some (JArr [dict_json r])"
  shows "\<exists>fs1 fs2 entries.
           save_results lib fs [Some r] output_file = (fs1, None)
         \<and> save_results lib fs1 [Some r] output_file = (fs2, None)
         \<and> fs1 (replace ''.txt'' ''.json'' output_file) = Some (json_dump lib (JArr [dict_json r]))
         \<and> fs2 (replace ''.txt'' ''.json'' output_file) = Some (json_dump lib (JArr entries))
         \<and> entries = [dict_json r, dict_json r] \<and> length entries = 2"
proof -
  define json_file where "json_file = replace ''.txt'' ''.json'' output_file"
  have differs: "json_file \<noteq> output_file"
    unfolding json_file_def using assms(3) by (rule json_file_differs)
  have lines: "snd (write_lines [Some r] []) = None"
    using assms(1,2) by simp
  define fs1 where
    "fs1 = fs(output_file \<mapsto> fst (write_lines [Some r] (case fs output_file of None \<Rightarrow> [] | Some s \<Rightarrow> s)),
              json_file \<mapsto> json_dump lib (JArr [dict_json r]))"
  have first: "save_results lib fs [Some r] output_file = (fs1, None)"
    using save_results_fresh[OF lines differs[unfolded json_file_def], of lib fs] assms(1,4)
    by (simp add: Let_def fs1_def json_file_def positives_single)
  have stored: "fs1 json_file = Some (json_dump lib (JArr [dict_json r]))"
    by (simp add: fs1_def)
  define fs2 where
    "fs2 = fs1(output_file \<mapsto> fst (write_lines [Some r] (case fs1 output_file of None \<Rightarrow> [] | Some s \<Rightarrow> s)),
               json_file \<mapsto> json_dump lib (JArr [dict_json r, dict_json r]))"
  have second: "save_results lib fs1 [Some r] output_file = (fs2, None)"
    using save_results_fresh[OF lines differs[unfolded json_file_def], of lib fs1] assms(1,5) stored
    by (simp add: Let_def fs2_def json_file_def positives_single)
  have "fs2 json_file = Some (json_dump lib (JArr [dict_json r, dict_json r]))"
    by (simp add: fs2_def)
  with first second stored show ?thesis
    unfolding json_file_def by simp
qed

theorem C6_append_twice_witness:
  "is_positive (Some demo_outcome)
   \<and> contains ''.txt'' ''data/bugbounty_apis.txt''
   \<and> replace ''.txt'' ''.json'' ''data/bugbounty_apis.txt'' = ''data/bugbounty_apis.json''
   \<and> (\<exists>fs1 fs2. save_results demo_lib Map.empty [Some demo_outcome] ''data/bugbounty_apis.txt'' = (fs1, None)
         \<and> save_results demo_lib fs1 [Some demo_outcome] ''data/bugbounty_apis.txt'' = (fs2, None)
         \<and> fs2 ''data/bugbounty_apis.json''
             = Some (json_dump demo_lib (JArr [dict_json demo_outcome, dict_json demo_outcome])))"
proof -
  have pos: "is_positive (Some demo_outcome)"
    by code_simp
  have line: "format_line demo_outcome
                = Inr (''https://example.com/api | REST/JSON | Status: 200 (Cloudflare)'' @ [CHR 0x0A])"
    by code_simp
  have has_txt: "contains ''.txt'' ''data/bugbounty_apis.txt''"
    by code_simp
  have json_file: "replace ''.txt'' ''.json'' ''data/bugbounty_apis.txt'' = ''data/bugbounty_apis.json''"
    by code_simp
  have absent: "Map.empty (replace ''.txt'' ''.json'' ''data/bugbounty_apis.txt'') = (None :: string option)"
    by simp
  have roundtrip: "json_load demo_lib (json_dump demo_lib (JArr [dict_json demo_outcome]))
                     = Some (JArr [dict_json demo_outcome])"
    by (simp add: demo_lib_def)
  from C6_append_twice[of demo_outcome _ "''data/bugbounty_apis.txt''" Map.empty demo_lib,
         OF pos line has_txt absent roundtrip] pos has_txt json_file
  show ?thesis unfolding json_file by blast
qed

text \<open>
  Claim C7. Let the output path contain \<open>.txt\<close> and let the structured file exist
  with a content that the JSON library cannot parse. If the text lines of the outcomes
  can be written, saving succeeds, and the structured file then holds the dump of the
  empty collection extended by the positive outcomes, in place of its old content.
\<close>

theorem C7_unparseable_existing:
  assumes "snd (write_lines rs []) = None"
      and "contains ''.txt'' output_file"
      and "fs (replace ''.txt'' ''.json'' output_file) = Some garbage"
      and "json_load lib garbage = None"
  shows "\<exists>fs'. save_results lib fs rs output_file = (fs', None)
           \<and> fs' (replace ''.txt'' ''.json'' output_file)
               = Some (json_dump lib (JArr ([] @ map dict_json (positives rs))))"
proof -
  have differs: "replace ''.txt'' ''.json'' output_file \<noteq> output_file"
    using assms(2) by (rule json_file_differs)
  from save_results_fresh[OF assms(1) differs, of lib fs] assms(3,4)
  show ?thesis by (simp add: Let_def)
qed

theorem C7_unparseable_existing_witness:
  \<open>json_load demo_lib ''[{"url": "https://old.exam'' = None
   \<and> (\<exists>fs'. save_results demo_lib [''data/bugbounty_apis.json'' \<mapsto> ''[{"url": "https://old.exam'']
                [Some demo_outcome, None] ''data/bugbounty_apis.txt'' = (fs', None)
          \<and> fs' ''data/bugbounty_apis.json'' = Some ''[outcome]'')\<close>
proof -
  have lines: "snd (write_lines [Some demo_outcome, None] []) = None"
    by code_simp
  have has_txt: "contains ''.txt'' ''data/bugbounty_apis.txt''"
    by code_simp
  have json_file: "replace ''.txt'' ''.json'' ''data/bugbounty_apis.txt'' = ''data/bugbounty_apis.json''"
    by code_simp
  have present: \<open>[''data/bugbounty_apis.json'' \<mapsto> ''[{"url": "https://old.exam'']
                   (replace ''.txt'' ''.json'' ''data/bugbounty_apis.txt'')
                     = Some ''[{"url": "https://old.exam''\<close>
    unfolding json_file by simp
  have unparseable: \<open>json_load demo_lib ''[{"url": "https://old.exam'' = None\<close>
    by (simp add: demo_lib_def)
  have merged: "json_dump demo_lib (JArr ([] @ map dict_json (positives [Some demo_outcome, None]))) = ''[outcome]''"
    by code_simp
  from C7_unparseable_existing[of "[Some demo_outcome, None]" "''data/bugbounty_apis.txt''"
         \<open>[''data/bugbounty_apis.json'' \<mapsto> ''[{"url": "https://old.exam'']\<close>
         \<open>''[{"url": "https://old.exam''\<close> demo_lib, OF lines has_txt present unparseable]
       unparseable
  show ?thesis unfolding json_file merged by blast
qed

end
